theory Spec2Isabelle
  imports
    Main
    "HOL-Library.Sublist"
    "HOL-Library.Multiset"
    "HOL-Library.Char_ord"
    "HOL-Library.List_Lexorder"
begin

section \<open>The Todo collection: data model of the client store\<close>

text \<open>
  The TypeScript interfaces \<^verbatim>\<open>Todo\<close>, \<^verbatim>\<open>TodoFilter\<close> and the store's \<^verbatim>\<open>TodoState\<close>
  (\<^verbatim>\<open>types/todo\<close>, \<^verbatim>\<open>store/todoStore\<close>). Timestamps (\<^verbatim>\<open>Date\<close>) are their time value in
  milliseconds, an \<open>int\<close>; an optional field is an \<open>option\<close>; strings are lists of
  8-bit code units.
\<close>

datatype priority = Low | Medium | High

datatype status = StatusAll | StatusActive | StatusCompleted

record todo =
  todo_id :: string
  title :: string
  description :: "string option"
  completed :: bool
  priority :: priority
  dueDate :: "int option"
  tags :: "string list"
  createdAt :: int
  updatedAt :: int

record todo_filter =
  f_status :: "status option"
  f_priority :: "priority option"
  f_tags :: "string list option"
  f_search :: "string option"

record todo_state =
  todos :: "todo list"
  filter_st :: todo_filter
  loading :: bool
  error :: "string option"
  editingTodo :: "todo option"

subsection \<open>String helpers of the platform\<close>

text \<open>
  \<^verbatim>\<open>String.prototype.toLowerCase\<close> and \<^verbatim>\<open>String.prototype.includes\<close> (is the argument a
  contiguous substring). Among the code units 0 to 255 the upper-case letters are
  \<^verbatim>\<open>A\<close> to \<^verbatim>\<open>Z\<close> (65 to 90) and U+00C0 to U+00DE without the multiplication sign U+00D7
  (192 to 214 and 216 to 222); the lower-case form of each is 32 code units further.
  Every other code unit of that range is its own lower-case form.
\<close>

definition lower_char :: "char \<Rightarrow> char" where
  "lower_char c =
     (let n = (of_char c :: nat)
      in if (65 \<le> n \<and> n \<le> 90) \<or> (192 \<le> n \<and> n \<le> 214) \<or> (216 \<le> n \<and> n \<le> 222)
         then char_of (n + 32) else c)"

definition toLowerCase :: "string \<Rightarrow> string" where
  "toLowerCase s = map lower_char s"

fun str_includes :: "'a list \<Rightarrow> 'a list \<Rightarrow> bool" where
  "str_includes [] sub = (sub = [])"
| "str_includes (c # cs) sub = (prefix sub (c # cs) \<or> str_includes cs sub)"

subsection \<open>Bulk toggle\<close>

text \<open>
  \<^verbatim>\<open>toggleTodos(ids)\<close>. The awaited \<^verbatim>\<open>api.bulkUpdate\<close> either returns or throws, and its
  result is not used: \<open>api_ok\<close> says which. \<open>now\<close> is the value of the \<^verbatim>\<open>new Date()\<close>
  evaluated in the state update. One invocation is modelled: no other mutator runs
  while the call is awaited, so the update sees the list that was read at entry.
\<close>

definition toggleTodos :: "string list \<Rightarrow> bool \<Rightarrow> int \<Rightarrow> todo_state \<Rightarrow> todo_state" where
  "toggleTodos ids api_ok now s =
     (case find (\<lambda>t. todo_id t \<in> set ids) (todos s) of
        None \<Rightarrow> s
      | Some firstTodo \<Rightarrow>
          (let newCompletedState = (\<not> completed firstTodo);
               s1 = s\<lparr>loading := True, error := None\<rparr>
           in if api_ok
              then s1\<lparr>todos :=
                        map (\<lambda>t. if todo_id t \<in> set ids
                                  then t\<lparr>completed := newCompletedState, updatedAt := now\<rparr>
                                  else t) (todos s1),
                      loading := False\<rparr>
              else s1\<lparr>error := Some ''Failed to toggle todos'', loading := False\<rparr>))"

subsection \<open>The derived, filtered view\<close>

text \<open>
  \<^verbatim>\<open>getFilteredTodos()\<close>: four guarded \<^verbatim>\<open>filter\<close> passes over a copy of the list, then
  \<^verbatim>\<open>sort\<close> with the comparator \<^verbatim>\<open>b.createdAt - a.createdAt\<close>. \<^verbatim>\<open>Array.prototype.sort\<close> is
  stable, as is \<open>sort_key\<close>. A guard \<^verbatim>\<open>if (x)\<close> on an optional string or array is
  JavaScript truthiness: an absent value and the empty string fail it, every array
  passes it.
\<close>

definition getFilteredTodos :: "todo_state \<Rightarrow> todo list" where
  "getFilteredTodos s =
     (let f = filter_st s;
          filtered = todos s;
          filtered =
            (if f_status f = Some StatusActive then filter (\<lambda>t. \<not> completed t) filtered
             else if f_status f = Some StatusCompleted then filter (\<lambda>t. completed t) filtered
             else filtered);
          filtered =
            (case f_priority f of
               Some p \<Rightarrow> filter (\<lambda>t. priority t = p) filtered
             | None \<Rightarrow> filtered);
          filtered =
            (case f_tags f of
               Some ftags \<Rightarrow>
                 if length ftags > 0
                 then filter (\<lambda>t. list_ex (\<lambda>tag. tag \<in> set (tags t)) ftags) filtered
                 else filtered
             | None \<Rightarrow> filtered);
          filtered =
            (case f_search f of
               Some q \<Rightarrow>
                 if q \<noteq> []
                 then (let searchLower = toLowerCase q
                       in filter (\<lambda>t.
                            str_includes (toLowerCase (title t)) searchLower
                            \<or> (case description t of
                                  Some d \<Rightarrow> d \<noteq> [] \<and> str_includes (toLowerCase d) searchLower
                                | None \<Rightarrow> False)
                            \<or> list_ex (\<lambda>tag. str_includes (toLowerCase tag) searchLower) (tags t))
                          filtered)
                 else filtered
             | None \<Rightarrow> filtered)
      in sort_key (\<lambda>t. - createdAt t) filtered)"

subsection \<open>The other mutators of the store\<close>

text \<open>
  Each mutator awaits one call of the \<^verbatim>\<open>api\<close> helper, which returns the server's answer
  or throws when the response is not \<^verbatim>\<open>ok\<close>. The argument \<open>r\<close> is that outcome:
  \<open>Some\<close> of the returned value, or \<open>None\<close> for a throw. \<^verbatim>\<open>api.deleteTodo\<close> and
  \<^verbatim>\<open>api.bulkDelete\<close> return nothing, so their outcome is a \<open>bool\<close>.
\<close>

definition addTodo :: "todo option \<Rightarrow> todo_state \<Rightarrow> todo_state" where
  "addTodo r s =
     (let s1 = s\<lparr>loading := True, error := None\<rparr>
      in case r of
           Some newTodo \<Rightarrow> s1\<lparr>todos := newTodo # todos s1, loading := False\<rparr>
         | None \<Rightarrow> s1\<lparr>error := Some ''Failed to add todo'', loading := False\<rparr>)"

definition updateTodo :: "string \<Rightarrow> todo option \<Rightarrow> todo_state \<Rightarrow> todo_state" where
  "updateTodo i r s =
     (let s1 = s\<lparr>loading := True, error := None\<rparr>
      in case r of
           Some updatedTodo \<Rightarrow>
             s1\<lparr>todos := map (\<lambda>t. if todo_id t = i then updatedTodo else t) (todos s1),
                loading := False, editingTodo := None\<rparr>
         | None \<Rightarrow> s1\<lparr>error := Some ''Failed to update todo'', loading := False\<rparr>)"

definition deleteTodo :: "string \<Rightarrow> bool \<Rightarrow> todo_state \<Rightarrow> todo_state" where
  "deleteTodo i api_ok s =
     (let s1 = s\<lparr>loading := True, error := None\<rparr>
      in if api_ok
         then s1\<lparr>todos := filter (\<lambda>t. todo_id t \<noteq> i) (todos s1), loading := False\<rparr>
         else s1\<lparr>error := Some ''Failed to delete todo'', loading := False\<rparr>)"

definition deleteTodos :: "string list \<Rightarrow> bool \<Rightarrow> todo_state \<Rightarrow> todo_state" where
  "deleteTodos ids api_ok s =
     (let s1 = s\<lparr>loading := True, error := None\<rparr>
      in if api_ok
         then s1\<lparr>todos := filter (\<lambda>t. todo_id t \<notin> set ids) (todos s1), loading := False\<rparr>
         else s1\<lparr>error := Some ''Failed to delete todos'', loading := False\<rparr>)"

text \<open>
  \<^verbatim>\<open>toggleTodo(id)\<close> calls \<^verbatim>\<open>updateTodo\<close> when the id is in the list; \<open>r\<close> is the outcome
  of that call's request.
\<close>

definition toggleTodo :: "string \<Rightarrow> todo option \<Rightarrow> todo_state \<Rightarrow> todo_state" where
  "toggleTodo i r s =
     (case find (\<lambda>t. todo_id t = i) (todos s) of
        Some t \<Rightarrow> updateTodo i r s
      | None \<Rightarrow> s)"

section \<open>The server side: JavaScript values, the object store, the adapter, the routes\<close>

subsection \<open>Values\<close>

text \<open>
  A request body is parsed JSON and the routes merge it into stored records without
  checking it, so on the server a todo is a JavaScript object: a finite map from
  property names to values. A property that is absent and one that holds
  \<^verbatim>\<open>undefined\<close> are told apart (\<open>None\<close> and \<open>Some JUndefined\<close>); reading either
  gives \<^verbatim>\<open>undefined\<close>. Numbers are the integers; a \<^verbatim>\<open>Date\<close> is its time value, \<open>None\<close>
  for an invalid date.
\<close>

datatype jsval =
    JUndefined
  | JNull
  | JBool bool
  | JNum int
  | JStr string
  | JDate "int option"
  | JArr "jsval list"
  | JObj "(string \<times> jsval) list"

type_synonym obj = "string \<rightharpoonup> jsval"

datatype thrown = TypeError | DataError | ConstraintError | TransactionError

definition get_prop :: "obj \<Rightarrow> string \<Rightarrow> jsval" where
  "get_prop ob k = (case ob k of None \<Rightarrow> JUndefined | Some v \<Rightarrow> v)"

fun truthy :: "jsval \<Rightarrow> bool" where
  "truthy JUndefined = False"
| "truthy JNull = False"
| "truthy (JBool b) = b"
| "truthy (JNum n) = (n \<noteq> 0)"
| "truthy (JStr s) = (s \<noteq> [])"
| "truthy (JDate d) = True"
| "truthy (JArr xs) = True"
| "truthy (JObj kvs) = True"

fun is_string :: "jsval \<Rightarrow> bool" where
  "is_string (JStr s) = True"
| "is_string v = False"

fun str_of :: "jsval \<Rightarrow> string" where
  "str_of (JStr s) = s"
| "str_of v = []"


text \<open>\<^verbatim>\<open>a === b\<close>: by value on primitives, by identity on objects (two values met here
  are never the same object).\<close>

fun strict_eq :: "jsval \<Rightarrow> jsval \<Rightarrow> bool" where
  "strict_eq JUndefined JUndefined = True"
| "strict_eq JNull JNull = True"
| "strict_eq (JBool a) (JBool b) = (a = b)"
| "strict_eq (JNum a) (JNum b) = (a = b)"
| "strict_eq (JStr a) (JStr b) = (a = b)"
| "strict_eq a b = False"

text \<open>\<^verbatim>\<open>String.prototype.trim\<close>: the white space among the 8-bit code units.\<close>

definition is_ws :: "char \<Rightarrow> bool" where
  "is_ws c = ((of_char c :: nat) \<in> {9, 10, 11, 12, 13, 32, 160})"

definition trim :: "string \<Rightarrow> string" where
  "trim s = rev (dropWhile is_ws (rev (dropWhile is_ws s)))"

text \<open>\<^verbatim>\<open>x?.trim()\<close>: \<^verbatim>\<open>undefined\<close> on a nullish \<open>x\<close>, the trimmed string on a string, and
  a \<^verbatim>\<open>TypeError\<close> on anything else (no \<^verbatim>\<open>trim\<close> method to call).\<close>

fun optTrim :: "jsval \<Rightarrow> thrown + jsval" where
  "optTrim JUndefined = Inr JUndefined"
| "optTrim JNull = Inr JUndefined"
| "optTrim (JStr s) = Inr (JStr (trim s))"
| "optTrim v = Inl TypeError"

text \<open>
  The environment of a request: \<open>dateParse\<close> is the time value \<^verbatim>\<open>new Date(v)\<close> takes
  from a string, an array or an object (the platform's \<^verbatim>\<open>Date.parse\<close> of its string
  form); \<open>fails\<close> says which requests to the object store end in \<^verbatim>\<open>onerror\<close> for a
  reason outside the program (the tests' \<^verbatim>\<open>shouldError\<close>).
\<close>

datatype request = ReqGetAll | ReqIndexGetAll | ReqAdd jsval | ReqPut jsval | ReqDelete jsval

record env =
  dateParse :: "jsval \<Rightarrow> int option"
  fails :: "request \<Rightarrow> bool"

fun newDate :: "env \<Rightarrow> jsval \<Rightarrow> jsval" where
  "newDate e (JDate d) = JDate d"
| "newDate e JUndefined = JDate None"
| "newDate e JNull = JDate (Some 0)"
| "newDate e (JBool b) = JDate (Some (if b then 1 else 0))"
| "newDate e (JNum n) = JDate (if \<bar>n\<bar> \<le> 8640000000000000 then Some n else None)"
| "newDate e v = JDate (dateParse e v)"

subsection \<open>The object store of the platform\<close>

text \<open>
  Modelled from the spec: the object store is IndexedDB, which belongs to the platform
  and is not among the sources (the tests' \<^verbatim>\<open>MockIDBObjectStore\<close> stands for it).
  Section 4.1 says what its \<^verbatim>\<open>add\<close>, \<^verbatim>\<open>put\<close> and \<^verbatim>\<open>delete\<close> do; which values are keys and
  how keys are ordered is taken from the IndexedDB standard.

  The store has the key path \<^verbatim>\<open>id\<close> and holds its records in ascending key order, one
  per key. A key is a number, a valid date, a string, or an array of keys; keys of
  different kinds are ordered number, date, string, array; arrays are compared
  element by element, and an array that is a proper prefix of another comes first.
  (Binary keys have no counterpart among the values modelled here.) \<^verbatim>\<open>add\<close> refuses an
  existing key, \<^verbatim>\<open>put\<close> replaces or inserts, \<^verbatim>\<open>delete\<close> removes what is there, and an
  index returns the records whose indexed property is the key asked for, in the order
  of their primary keys.
\<close>

datatype idbkey = KNum int | KDate int | KStr string | KArr "idbkey list"

type_synonym objstore = "(idbkey \<times> obj) list"

definition str_key :: "string \<Rightarrow> idbkey" where
  "str_key s = KStr s"

fun key_of :: "jsval \<Rightarrow> idbkey option" where
  "key_of (JNum n) = Some (KNum n)"
| "key_of (JDate (Some d)) = Some (KDate d)"
| "key_of (JStr s) = Some (str_key s)"
| "key_of (JArr vs) = map_option KArr (those (map key_of vs))"
| "key_of v = None"

function (sequential) key_less :: "idbkey \<Rightarrow> idbkey \<Rightarrow> bool"
  and keys_less :: "idbkey list \<Rightarrow> idbkey list \<Rightarrow> bool" where
  "key_less (KNum a) (KNum b) = (a < b)"
| "key_less (KNum a) k = True"
| "key_less (KDate a) (KNum b) = False"
| "key_less (KDate a) (KDate b) = (a < b)"
| "key_less (KDate a) k = True"
| "key_less (KStr a) (KStr b) = (a < b)"
| "key_less (KStr a) (KArr b) = True"
| "key_less (KStr a) k = False"
| "key_less (KArr a) (KArr b) = keys_less a b"
| "key_less (KArr a) k = False"
| "keys_less [] [] = False"
| "keys_less [] (y # ys) = True"
| "keys_less (x # xs) [] = False"
| "keys_less (x # xs) (y # ys) =
     (if key_less x y then True else if key_less y x then False else keys_less xs ys)"
  by pat_completeness auto

termination
  by (relation "measure (case_sum (\<lambda>(a, b). size a + size b)
        (\<lambda>(xs, ys). size_list size xs + size_list size ys))") auto

fun store_put :: "idbkey \<Rightarrow> obj \<Rightarrow> objstore \<Rightarrow> objstore" where
  "store_put k v [] = [(k, v)]"
| "store_put k v ((k', v') # rest) =
     (if key_less k k' then (k, v) # (k', v') # rest
      else if k = k' then (k, v) # rest
      else (k', v') # store_put k v rest)"

definition store_delete :: "idbkey \<Rightarrow> objstore \<Rightarrow> objstore" where
  "store_delete k db = filter (\<lambda>kv. fst kv \<noteq> k) db"

definition store_getAll :: "objstore \<Rightarrow> obj list" where
  "store_getAll db = map snd db"

definition index_getAll :: "string \<Rightarrow> idbkey \<Rightarrow> objstore \<Rightarrow> obj list" where
  "index_getAll keyPath k db = filter (\<lambda>ob. key_of (get_prop ob keyPath) = Some k) (map snd db)"

subsection \<open>The persistence adapter\<close>

text \<open>
  \<^verbatim>\<open>IndexedDBManager\<close> (\<^verbatim>\<open>utils/indexedDB\<close>); the methods carry the prefix \<open>db_\<close>, the
  store's mutators having the same names. A rejected promise is \<open>Inl\<close>.
\<close>

definition revive :: "env \<Rightarrow> obj \<Rightarrow> obj" where
  "revive e todo =
     todo(''createdAt'' \<mapsto> newDate e (get_prop todo ''createdAt''),
          ''updatedAt'' \<mapsto> newDate e (get_prop todo ''updatedAt''),
          ''dueDate'' \<mapsto> (if truthy (get_prop todo ''dueDate'')
                           then newDate e (get_prop todo ''dueDate'') else JUndefined))"

definition db_getAllTodos :: "env \<Rightarrow> objstore \<Rightarrow> thrown + obj list" where
  "db_getAllTodos e db =
     (if fails e ReqGetAll then Inl TransactionError
      else Inr (map (revive e) (store_getAll db)))"

definition db_addTodo :: "env \<Rightarrow> obj \<Rightarrow> objstore \<Rightarrow> thrown + objstore" where
  "db_addTodo e todo db =
     (case key_of (get_prop todo ''id'') of
        None \<Rightarrow> Inl DataError
      | Some k \<Rightarrow>
          if fails e (ReqAdd (get_prop todo ''id'')) then Inl TransactionError
          else if k \<in> set (map fst db) then Inl ConstraintError
          else Inr (store_put k todo db))"

definition db_updateTodo :: "env \<Rightarrow> obj \<Rightarrow> objstore \<Rightarrow> thrown + objstore" where
  "db_updateTodo e todo db =
     (case key_of (get_prop todo ''id'') of
        None \<Rightarrow> Inl DataError
      | Some k \<Rightarrow>
          if fails e (ReqPut (get_prop todo ''id'')) then Inl TransactionError
          else Inr (store_put k todo db))"

definition db_deleteTodo :: "env \<Rightarrow> jsval \<Rightarrow> objstore \<Rightarrow> thrown + objstore" where
  "db_deleteTodo e i db =
     (case key_of i of
        None \<Rightarrow> Inl DataError
      | Some k \<Rightarrow>
          if fails e (ReqDelete i) then Inl TransactionError
          else Inr (store_delete k db))"

record adapter_filter =
  af_completed :: "bool option"
  af_priority :: "string option"

definition db_getTodosByFilter :: "env \<Rightarrow> adapter_filter \<Rightarrow> objstore \<Rightarrow> thrown + obj list" where
  "db_getTodosByFilter e f db =
     (let request =
            (case af_priority f of
               Some p \<Rightarrow>
                 if p \<noteq> [] then (ReqIndexGetAll, index_getAll ''priority'' (str_key p) db)
                 else (ReqGetAll, store_getAll db)
             | None \<Rightarrow> (ReqGetAll, store_getAll db))
      in if fails e (fst request) then Inl TransactionError
         else
           (let todos = map (revive e) (snd request);
                todos =
                  (case af_completed f of
                     Some c \<Rightarrow>
                       filter (\<lambda>todo. strict_eq (get_prop todo ''completed'') (JBool c)) todos
                   | None \<Rightarrow> todos)
            in Inr todos))"

subsection \<open>The routes\<close>

text \<open>
  A route takes the parsed request body (a JSON object) and the durable store, and
  returns its response with the store as it leaves it. \<^verbatim>\<open>NextResponse.json(x, {status})\<close>
  is \<open>Response status x\<close> (\<open>x\<close> as the handler holds it, before it is serialised),
  and \<^verbatim>\<open>NextResponse.json({error: m}, {status})\<close> is \<open>ErrorResponse status m\<close>. Whatever is thrown inside a handler is caught by its
  \<^verbatim>\<open>try\<close> and answered with status 500. The clock readings (\<^verbatim>\<open>new Date()\<close>) and the
  generated id are arguments.
\<close>

datatype 'a response = Response nat 'a | ErrorResponse nat string

text \<open>The filter both write routes apply to a tags array:
  \<^verbatim>\<open>tag => typeof tag === 'string' && tag.trim()\<close>.\<close>

fun keepTag :: "jsval \<Rightarrow> bool" where
  "keepTag (JStr s) = (trim s \<noteq> [])"
| "keepTag v = False"

text \<open>\<^verbatim>\<open>POST /api/todos\<close>.\<close>

definition POST_todos ::
  "env \<Rightarrow> string \<Rightarrow> int \<Rightarrow> int \<Rightarrow> obj \<Rightarrow> objstore \<Rightarrow> obj response \<times> objstore" where
  "POST_todos e newId now1 now2 body db =
     (let title = get_prop body ''title'';
          description = get_prop body ''description'';
          priority = (case get_prop body ''priority'' of JUndefined \<Rightarrow> JStr ''medium'' | v \<Rightarrow> v);
          dueDate = get_prop body ''dueDate'';
          tags = (case get_prop body ''tags'' of JUndefined \<Rightarrow> JArr [] | v \<Rightarrow> v)
      in if \<not> truthy title \<or> \<not> is_string title \<or> length (trim (str_of title)) = 0
         then (ErrorResponse 400 ''Title is required and must be a non-empty string'', db)
         else
           (case optTrim description of
              Inl err \<Rightarrow> (ErrorResponse 500 ''Failed to create todo'', db)
            | Inr d \<Rightarrow>
                (let newTodo =
                       [''id'' \<mapsto> JStr newId,
                        ''title'' \<mapsto> JStr (trim (str_of title)),
                        ''description'' \<mapsto> (if truthy d then d else JUndefined),
                        ''completed'' \<mapsto> JBool False,
                        ''priority'' \<mapsto> priority,
                        ''dueDate'' \<mapsto> (if truthy dueDate then newDate e dueDate else JUndefined),
                        ''tags'' \<mapsto> (case tags of JArr xs \<Rightarrow> JArr (filter keepTag xs) | _ \<Rightarrow> JArr []),
                        ''createdAt'' \<mapsto> JDate (Some now1),
                        ''updatedAt'' \<mapsto> JDate (Some now2)]
                 in case db_addTodo e newTodo db of
                      Inl err \<Rightarrow> (ErrorResponse 500 ''Failed to create todo'', db)
                    | Inr db' \<Rightarrow> (Response 201 newTodo, db'))))"

text \<open>
  \<^verbatim>\<open>PUT /api/todos/[id]\<close>. \<open>prepareUpdates\<close> is the object literal of the handler
  (the body spread, then the four computed properties) followed by the loop that
  deletes every property whose value is \<^verbatim>\<open>undefined\<close>.
\<close>

definition removeUndefined :: "obj \<Rightarrow> obj" where
  "removeUndefined updates = (\<lambda>key. case updates key of Some JUndefined \<Rightarrow> None | r \<Rightarrow> r)"

definition prepareUpdates :: "env \<Rightarrow> obj \<Rightarrow> thrown + obj" where
  "prepareUpdates e body =
     (case optTrim (get_prop body ''title'') of
        Inl err \<Rightarrow> Inl err
      | Inr t \<Rightarrow>
          (case optTrim (get_prop body ''description'') of
             Inl err \<Rightarrow> Inl err
           | Inr d \<Rightarrow>
               Inr (removeUndefined
                 (body(''title'' \<mapsto> t,
                       ''description'' \<mapsto> d,
                       ''dueDate'' \<mapsto> (if truthy (get_prop body ''dueDate'')
                                        then newDate e (get_prop body ''dueDate'')
                                        else JUndefined),
                       ''tags'' \<mapsto> (case get_prop body ''tags'' of
                                       JArr xs \<Rightarrow> JArr (filter keepTag xs)
                                     | _ \<Rightarrow> JUndefined))))))"

definition PUT_todo ::
  "env \<Rightarrow> int \<Rightarrow> string \<Rightarrow> obj \<Rightarrow> objstore \<Rightarrow> obj response \<times> objstore" where
  "PUT_todo e now i body db =
     (if get_prop body ''title'' \<noteq> JUndefined
         \<and> (\<not> is_string (get_prop body ''title'')
              \<or> length (trim (str_of (get_prop body ''title''))) = 0)
      then (ErrorResponse 400 ''Title must be a non-empty string'', db)
      else
        (case prepareUpdates e body of
           Inl err \<Rightarrow> (ErrorResponse 500 ''Failed to update todo'', db)
         | Inr updates \<Rightarrow>
             (case db_getAllTodos e db of
                Inl err \<Rightarrow> (ErrorResponse 500 ''Failed to update todo'', db)
              | Inr allTodos \<Rightarrow>
                  (case find (\<lambda>t. strict_eq (get_prop t ''id'') (JStr i)) allTodos of
                     None \<Rightarrow> (ErrorResponse 404 ''Todo not found'', db)
                   | Some existingTodo \<Rightarrow>
                       (let updatedTodo =
                              (existingTodo ++ updates)(''updatedAt'' \<mapsto> JDate (Some now))
                        in case db_updateTodo e updatedTodo db of
                             Inl err \<Rightarrow> (ErrorResponse 500 ''Failed to update todo'', db)
                           | Inr db' \<Rightarrow> (Response 200 updatedTodo, db'))))))"



text \<open>
  \<^verbatim>\<open>DELETE /api/todos\<close>, the bulk delete: the \<^verbatim>\<open>for\<close> loop with its inner \<^verbatim>\<open>try\<close>, then
  the response \<^verbatim>\<open>{deleted, count}\<close>. The argument is the body's \<^verbatim>\<open>ids\<close>.
\<close>

fun deleteLoop :: "env \<Rightarrow> jsval list \<Rightarrow> jsval list \<Rightarrow> objstore \<Rightarrow> jsval list \<times> objstore" where
  "deleteLoop e [] deletedIds db = (deletedIds, db)"
| "deleteLoop e (i # rest) deletedIds db =
     (case db_deleteTodo e i db of
        Inr db' \<Rightarrow> deleteLoop e rest (deletedIds @ [i]) db'
      | Inl err \<Rightarrow> deleteLoop e rest deletedIds db)"

definition DELETE_todos ::
  "env \<Rightarrow> jsval \<Rightarrow> objstore \<Rightarrow> (jsval list \<times> nat) response \<times> objstore" where
  "DELETE_todos e ids db =
     (case ids of
        JArr idList \<Rightarrow>
          if length idList = 0 then (ErrorResponse 400 ''IDs array is required'', db)
          else (case deleteLoop e idList [] db of
                  (deletedIds, db') \<Rightarrow> (Response 200 (deletedIds, length deletedIds), db'))
      | _ \<Rightarrow> (ErrorResponse 400 ''IDs array is required'', db))"

text \<open>
  \<^verbatim>\<open>PUT /api/todos\<close>, the bulk update: the todos are read once, each id found among
  them is merged with \<open>updates\<close> (the own properties of the body's \<^verbatim>\<open>updates\<close>) and
  written; a failed write ends the loop in the handler's \<^verbatim>\<open>catch\<close> with the earlier
  writes done. \<open>clock n\<close> is the \<^verbatim>\<open>new Date()\<close> of the loop's pass \<open>n\<close>.
\<close>

fun updateLoop ::
  "env \<Rightarrow> (nat \<Rightarrow> int) \<Rightarrow> obj list \<Rightarrow> obj \<Rightarrow> jsval list \<Rightarrow> nat \<Rightarrow> obj list \<Rightarrow> objstore
     \<Rightarrow> (thrown + obj list) \<times> objstore" where
  "updateLoop e clock allTodos updates [] n updatedTodos db = (Inr updatedTodos, db)"
| "updateLoop e clock allTodos updates (i # rest) n updatedTodos db =
     (case find (\<lambda>t. strict_eq (get_prop t ''id'') i) allTodos of
        None \<Rightarrow> updateLoop e clock allTodos updates rest (Suc n) updatedTodos db
      | Some todo \<Rightarrow>
          (let updatedTodo = (todo ++ updates)(''updatedAt'' \<mapsto> JDate (Some (clock n)))
           in case db_updateTodo e updatedTodo db of
                Inl err \<Rightarrow> (Inl err, db)
              | Inr db' \<Rightarrow>
                  updateLoop e clock allTodos updates rest (Suc n)
                    (updatedTodos @ [updatedTodo]) db'))"

definition PUT_todos ::
  "env \<Rightarrow> (nat \<Rightarrow> int) \<Rightarrow> jsval \<Rightarrow> obj \<Rightarrow> objstore \<Rightarrow> (obj list \<times> nat) response \<times> objstore" where
  "PUT_todos e clock ids updates db =
     (case ids of
        JArr idList \<Rightarrow>
          if length idList = 0 then (ErrorResponse 400 ''IDs array is required'', db)
          else
            (case db_getAllTodos e db of
               Inl err \<Rightarrow> (ErrorResponse 500 ''Failed to update todos'', db)
             | Inr allTodos \<Rightarrow>
                 (case updateLoop e clock allTodos updates idList 0 [] db of
                    (Inl err, db') \<Rightarrow> (ErrorResponse 500 ''Failed to update todos'', db')
                  | (Inr updatedTodos, db') \<Rightarrow>
                      (Response 200 (updatedTodos, length updatedTodos), db')))
      | _ \<Rightarrow> (ErrorResponse 400 ''IDs array is required'', db))"

text \<open>\<^verbatim>\<open>response.ok\<close>, as the \<^verbatim>\<open>api\<close> helper of the store tests it.\<close>

fun response_ok :: "'a response \<Rightarrow> bool" where
  "response_ok (Response st x) = (200 \<le> st \<and> st \<le> 299)"
| "response_ok (ErrorResponse st m) = (200 \<le> st \<and> st \<le> 299)"

subsection \<open>The server over time\<close>




subsection \<open>A typed todo as the object it is at run time\<close>

definition priority_str :: "priority \<Rightarrow> string" where
  "priority_str p = (case p of Low \<Rightarrow> ''low'' | Medium \<Rightarrow> ''medium'' | High \<Rightarrow> ''high'')"

definition obj_of_todo :: "todo \<Rightarrow> obj" where
  "obj_of_todo t =
     [''id'' \<mapsto> JStr (todo_id t),
      ''title'' \<mapsto> JStr (title t),
      ''description'' \<mapsto> (case description t of None \<Rightarrow> JUndefined | Some d \<Rightarrow> JStr d),
      ''completed'' \<mapsto> JBool (completed t),
      ''priority'' \<mapsto> JStr (priority_str (priority t)),
      ''dueDate'' \<mapsto> (case dueDate t of None \<Rightarrow> JUndefined | Some d \<Rightarrow> JDate (Some d)),
      ''tags'' \<mapsto> JArr (map JStr (tags t)),
      ''createdAt'' \<mapsto> JDate (Some (createdAt t)),
      ''updatedAt'' \<mapsto> JDate (Some (updatedAt t))]"

text \<open>
  The other direction, TypeScript's view of a run-time object as a \<^verbatim>\<open>Todo\<close>: each
  field is read at its declared type. It is exact on the objects of that type (it
  inverts \<open>obj_of_todo\<close>); a field of another type reads as absent, \<open>False\<close>,
  \<^verbatim>\<open>medium\<close>, the empty list or 0.
\<close>

definition todo_of_obj :: "obj \<Rightarrow> todo" where
  "todo_of_obj ob =
     \<lparr>todo_id = str_of (get_prop ob ''id''),
      title = str_of (get_prop ob ''title''),
      description = (case get_prop ob ''description'' of JStr d \<Rightarrow> Some d | _ \<Rightarrow> None),
      completed = (get_prop ob ''completed'' = JBool True),
      priority = (case get_prop ob ''priority'' of
                    JStr p \<Rightarrow> if p = ''low'' then Low else if p = ''high'' then High else Medium
                  | _ \<Rightarrow> Medium),
      dueDate = (case get_prop ob ''dueDate'' of JDate d \<Rightarrow> d | _ \<Rightarrow> None),
      tags = (case get_prop ob ''tags'' of JArr xs \<Rightarrow> map str_of xs | _ \<Rightarrow> []),
      createdAt = (case get_prop ob ''createdAt'' of JDate (Some d) \<Rightarrow> d | _ \<Rightarrow> 0),
      updatedAt = (case get_prop ob ''updatedAt'' of JDate (Some d) \<Rightarrow> d | _ \<Rightarrow> 0)\<rparr>"

subsection \<open>The store's update, end to end\<close>






subsection \<open>Example data\<close>

definition todo1 :: todo where
  "todo1 = \<lparr>todo_id = ''1'', title = ''Pay rent'', description = None, completed = False,
            priority = Medium, dueDate = None, tags = [''home''], createdAt = 1000,
            updatedAt = 1000\<rparr>"

definition todo2 :: todo where
  "todo2 = \<lparr>todo_id = ''2'', title = ''Write Report'', description = Some ''quarterly'',
            completed = True, priority = High, dueDate = Some 5000, tags = [''work''],
            createdAt = 2000, updatedAt = 2000\<rparr>"

definition no_filter :: todo_filter where
  "no_filter = \<lparr>f_status = None, f_priority = None, f_tags = None, f_search = None\<rparr>"

definition state12 :: todo_state where
  "state12 = \<lparr>todos = [todo1, todo2], filter_st = no_filter, loading = False, error = None,
              editingTodo = None\<rparr>"

definition state_work_urgent :: todo_state where
  "state_work_urgent =
     state12\<lparr>filter_st := no_filter\<lparr>f_tags := Some [''work'', ''urgent'']\<rparr>\<rparr>"

definition state_empty_tags :: todo_state where
  "state_empty_tags = state12\<lparr>filter_st := no_filter\<lparr>f_tags := Some []\<rparr>\<rparr>"

definition env_ok :: env where
  "env_ok = \<lparr>dateParse = (\<lambda>v. None), fails = (\<lambda>r. False)\<rparr>"

definition env_fail2 :: env where
  "env_fail2 = \<lparr>dateParse = (\<lambda>v. None), fails = (\<lambda>r. r = ReqDelete (JStr ''2''))\<rparr>"

definition db12 :: objstore where
  "db12 = [(str_key ''1'', obj_of_todo todo1), (str_key ''2'', obj_of_todo todo2)]"

text \<open>
  A todo whose title begins with a capital E acute (U+00C9), searched for in another
  case; the ISO strings of the two time values used below, with an environment whose
  \<^verbatim>\<open>Date\<close> reads them back; a server state reached by one \<open>POST\<close>, and the store state
  that mirrors it.
\<close>

definition todo_ecole :: todo where
  "todo_ecole = todo1\<lparr>title := CHR 0xC9 # ''cole''\<rparr>"

definition state_ecole :: todo_state where
  "state_ecole =
     state12\<lparr>todos := [todo_ecole, todo2],
             filter_st := no_filter\<lparr>f_search := Some (CHR 0xE9 # ''COLE'')\<rparr>\<rparr>"





section \<open>Properties of the client store\<close>

lemma find_first_index:
  "find P xs = Some x \<Longrightarrow>
     \<exists>k < length xs. xs ! k = x \<and> P x \<and> (\<forall>j < k. \<not> P (xs ! j))"
  by (auto simp: find_Some_iff)

lemma find_None_all: "(find P xs = None) = (\<forall>x \<in> set xs. \<not> P x)"
  by (auto simp: find_None_iff)

text \<open>
  C1. Bulk toggle takes its reference flag from the first todo, in list order, whose id
  is among \<open>ids\<close>; when the API call succeeds every todo whose id is among \<open>ids\<close> gets
  the inverse of that one flag, whatever its own flag was, and every other todo is left
  as it was; when no todo matches, the state is returned unchanged.
\<close>

theorem toggleTodos_first_match_wins:
  "(if \<exists>t \<in> set (todos s). todo_id t \<in> set ids
    then \<exists>k < length (todos s).
           todo_id (todos s ! k) \<in> set ids
           \<and> (\<forall>j < k. todo_id (todos s ! j) \<notin> set ids)
           \<and> length (todos (toggleTodos ids True now s)) = length (todos s)
           \<and> (\<forall>i < length (todos s).
                 (todo_id (todos s ! i) \<in> set ids \<longrightarrow>
                    todos (toggleTodos ids True now s) ! i
                      = (todos s ! i)\<lparr>completed := \<not> completed (todos s ! k),
                                        updatedAt := now\<rparr>)
                 \<and> (todo_id (todos s ! i) \<notin> set ids \<longrightarrow>
                    todos (toggleTodos ids True now s) ! i = todos s ! i))
    else toggleTodos ids api_ok now s = s)"
proof (cases "find (\<lambda>t. todo_id t \<in> set ids) (todos s)")
  case None
  then have "\<not> (\<exists>t \<in> set (todos s). todo_id t \<in> set ids)"
    by (simp add: find_None_all)
  with None show ?thesis
    by (simp add: toggleTodos_def)
next
  case (Some firstTodo)
  then obtain k where k: "k < length (todos s)" "todos s ! k = firstTodo"
      "todo_id firstTodo \<in> set ids" "\<forall>j < k. todo_id (todos s ! j) \<notin> set ids"
    using find_first_index [of "\<lambda>t. todo_id t \<in> set ids" "todos s" firstTodo] by blast
  from k have ex: "\<exists>t \<in> set (todos s). todo_id t \<in> set ids"
    using nth_mem by blast
  have "todo_id (todos s ! k) \<in> set ids
        \<and> (\<forall>j < k. todo_id (todos s ! j) \<notin> set ids)
        \<and> length (todos (toggleTodos ids True now s)) = length (todos s)
        \<and> (\<forall>i < length (todos s).
              (todo_id (todos s ! i) \<in> set ids \<longrightarrow>
                 todos (toggleTodos ids True now s) ! i
                   = (todos s ! i)\<lparr>completed := \<not> completed (todos s ! k),
                                     updatedAt := now\<rparr>)
              \<and> (todo_id (todos s ! i) \<notin> set ids \<longrightarrow>
                 todos (toggleTodos ids True now s) ! i = todos s ! i))"
    using Some k by (simp add: toggleTodos_def)
  with k(1) ex show ?thesis by auto
qed

theorem toggleTodos_first_match_wins_witness:
  "(\<exists>t \<in> set (todos state12). todo_id t \<in> set [''2'', ''1''])
   \<and> map completed (todos state12) = [False, True]
   \<and> map completed (todos (toggleTodos [''2'', ''1''] True 7 state12)) = [True, True]
   \<and> map updatedAt (todos (toggleTodos [''2'', ''1''] True 7 state12)) = [7, 7]
   \<and> map completed (todos (toggleTodos [''2''] True 7 state12)) = [False, False]
   \<and> map updatedAt (todos (toggleTodos [''2''] True 7 state12)) = [1000, 7]
   \<and> \<not> (\<exists>t \<in> set (todos state12). todo_id t \<in> set [''3''])
   \<and> toggleTodos [''3''] True 7 state12 = state12"
  using toggleTodos_first_match_wins [of state12 "[''2'', ''1'']" 7 True]
    toggleTodos_first_match_wins [of state12 "[''2'']" 7 True]
    toggleTodos_first_match_wins [of state12 "[''3'']" 7 True]
  by (simp add: toggleTodos_def state12_def todo1_def todo2_def)

subsection \<open>The filtered view\<close>

lemma str_includes_Nil [simp]: "str_includes s [] = True"
  by (cases s) simp_all

lemma toLowerCase_Nil_iff [simp]: "(toLowerCase q = []) = (q = [])"
  by (simp add: toLowerCase_def)

lemma toLowerCase_Nil [simp]: "toLowerCase [] = []"
  by (simp add: toLowerCase_def)

lemma str_includes_iff: "str_includes s sub = (\<exists>pre post. s = pre @ sub @ post)"
proof -
  have "str_includes s sub = sublist sub s"
    by (induction s) (simp_all add: sublist_Cons_right)
  then show ?thesis by (simp add: sublist_def)
qed

lemma lower_char_code:
  "(of_char (lower_char c) :: nat)
     = (if (65 \<le> (of_char c :: nat) \<and> (of_char c :: nat) \<le> 90)
           \<or> (192 \<le> (of_char c :: nat) \<and> (of_char c :: nat) \<le> 214)
           \<or> (216 \<le> (of_char c :: nat) \<and> (of_char c :: nat) \<le> 222)
        then of_char c + 32 else of_char c)"
  by (simp add: lower_char_def Let_def)

lemma lower_char_idem: "lower_char (lower_char c) = lower_char c"
proof -
  have "(of_char (lower_char (lower_char c)) :: nat) = of_char (lower_char c)"
    by (simp add: lower_char_code)
  then show ?thesis by (simp only: of_char_eq_iff)
qed

lemma toLowerCase_idem: "toLowerCase (toLowerCase s) = toLowerCase s"
  by (simp add: toLowerCase_def lower_char_idem)

lemma toLowerCase_examples:
  "toLowerCase ''AZ az [@'' = ''az az [@''
   \<and> toLowerCase [CHR 0xC0, CHR 0xD6, CHR 0xD7, CHR 0xD8, CHR 0xDE, CHR 0xDF, CHR 0xFF]
       = [CHR 0xE0, CHR 0xF6, CHR 0xD7, CHR 0xF8, CHR 0xFE, CHR 0xDF, CHR 0xFF]"
  by code_simp

lemma stage_status:
  "(if st = Some StatusActive then filter (\<lambda>t. \<not> completed t) xs
    else if st = Some StatusCompleted then filter (\<lambda>t. completed t) xs else xs)
   = filter (\<lambda>t. (st = Some StatusActive \<longrightarrow> \<not> completed t)
                \<and> (st = Some StatusCompleted \<longrightarrow> completed t)) xs"
  by simp

lemma stage_priority:
  "(case pr of Some p \<Rightarrow> filter (\<lambda>t. priority t = p) xs | None \<Rightarrow> xs)
   = filter (\<lambda>t. \<forall>p. pr = Some p \<longrightarrow> priority t = p) xs"
  by (cases pr) simp_all

lemma stage_tags:
  "(case tg of
      Some ftags \<Rightarrow>
        if length ftags > 0
        then filter (\<lambda>t. list_ex (\<lambda>tag. tag \<in> set (tags t)) ftags) xs else xs
    | None \<Rightarrow> xs)
   = filter (\<lambda>t. \<forall>ftags. tg = Some ftags \<and> ftags \<noteq> [] \<longrightarrow>
                    (\<exists>tag \<in> set ftags. tag \<in> set (tags t))) xs"
  by (cases tg) (simp_all add: list_ex_iff)

lemma search_pred_eq:
  "q \<noteq> [] \<Longrightarrow>
   (str_includes (toLowerCase (title t)) (toLowerCase q)
     \<or> (case description t of
           Some d \<Rightarrow> d \<noteq> [] \<and> str_includes (toLowerCase d) (toLowerCase q)
         | None \<Rightarrow> False)
     \<or> list_ex (\<lambda>tag. str_includes (toLowerCase tag) (toLowerCase q)) (tags t))
   = (str_includes (toLowerCase (title t)) (toLowerCase q)
       \<or> (\<exists>d. description t = Some d \<and> str_includes (toLowerCase d) (toLowerCase q))
       \<or> (\<exists>tag \<in> set (tags t). str_includes (toLowerCase tag) (toLowerCase q)))"
  by (cases "description t") (auto simp: list_ex_iff)

lemma stage_search:
  "(case sr of
      Some q \<Rightarrow>
        if q \<noteq> []
        then (let searchLower = toLowerCase q
              in filter (\<lambda>t.
                   str_includes (toLowerCase (title t)) searchLower
                   \<or> (case description t of
                         Some d \<Rightarrow> d \<noteq> [] \<and> str_includes (toLowerCase d) searchLower
                       | None \<Rightarrow> False)
                   \<or> list_ex (\<lambda>tag. str_includes (toLowerCase tag) searchLower) (tags t))
                 xs)
        else xs
    | None \<Rightarrow> xs)
   = filter (\<lambda>t. \<forall>q. sr = Some q \<longrightarrow>
                 str_includes (toLowerCase (title t)) (toLowerCase q)
                 \<or> (\<exists>d. description t = Some d \<and> str_includes (toLowerCase d) (toLowerCase q))
                 \<or> (\<exists>tag \<in> set (tags t). str_includes (toLowerCase tag) (toLowerCase q))) xs"
proof (cases sr)
  case None
  then show ?thesis by simp
next
  case (Some q)
  show ?thesis
  proof (cases "q = []")
    case True
    with Some show ?thesis by simp
  next
    case False
    with Some show ?thesis
      by (simp add: Let_def search_pred_eq)
  qed
qed

lemma getFilteredTodos_as_filter:
  "getFilteredTodos s = sort_key (\<lambda>t. - createdAt t) (filter (\<lambda>t.
       (f_status (filter_st s) = Some StatusActive \<longrightarrow> \<not> completed t)
     \<and> (f_status (filter_st s) = Some StatusCompleted \<longrightarrow> completed t)
     \<and> (\<forall>p. f_priority (filter_st s) = Some p \<longrightarrow> priority t = p)
     \<and> (\<forall>ftags. f_tags (filter_st s) = Some ftags \<and> ftags \<noteq> [] \<longrightarrow>
           (\<exists>tag \<in> set ftags. tag \<in> set (tags t)))
     \<and> (\<forall>q. f_search (filter_st s) = Some q \<longrightarrow>
           str_includes (toLowerCase (title t)) (toLowerCase q)
           \<or> (\<exists>d. description t = Some d \<and> str_includes (toLowerCase d) (toLowerCase q))
           \<or> (\<exists>tag \<in> set (tags t). str_includes (toLowerCase tag) (toLowerCase q))))
     (todos s))"
  unfolding getFilteredTodos_def Let_def stage_status stage_priority stage_tags
    stage_search [unfolded Let_def] filter_filter
  apply (rule arg_cong [where f = "sort_key (\<lambda>t. - createdAt t)"])
  apply (rule filter_cong [OF refl])
  apply blast
  done

lemma sort_key_newest_first:
  "sorted_wrt (\<lambda>a b. createdAt b \<le> createdAt a) (sort_key (\<lambda>t. - createdAt t) xs)"
proof -
  have "sorted (map (\<lambda>t. - createdAt t) (sort_key (\<lambda>t. - createdAt t) xs))"
    by (rule sorted_sort_key)
  then show ?thesis
    by (simp add: sorted_map)
qed

text \<open>
  C2 (amended). The filtered view holds exactly the todos that pass every active stage
  (as a multiset: each as often as the list holds it), newest first, equal creation
  times keeping their order in the list. A stage is active when its filter field is
  set, except that the tags stage is also skipped when the tag list is set but
  empty. The status \<open>all\<close> constrains nothing; an empty search term matches every
  todo, so skipping it changes nothing. The search compares the lower-case forms, and
  a term matches a text when the text is some prefix, the term, and some suffix.
\<close>

theorem getFilteredTodos_stages:
  "(let f = filter_st s;
        P = (\<lambda>t.
               (f_status f = Some StatusActive \<longrightarrow> \<not> completed t)
             \<and> (f_status f = Some StatusCompleted \<longrightarrow> completed t)
             \<and> (\<forall>p. f_priority f = Some p \<longrightarrow> priority t = p)
             \<and> (\<forall>ftags. f_tags f = Some ftags \<and> ftags \<noteq> [] \<longrightarrow>
                   (\<exists>tag \<in> set ftags. tag \<in> set (tags t)))
             \<and> (\<forall>q. f_search f = Some q \<longrightarrow>
                   str_includes (toLowerCase (title t)) (toLowerCase q)
                   \<or> (\<exists>d. description t = Some d
                           \<and> str_includes (toLowerCase d) (toLowerCase q))
                   \<or> (\<exists>tag \<in> set (tags t).
                           str_includes (toLowerCase tag) (toLowerCase q))))
    in getFilteredTodos s = sort_key (\<lambda>t. - createdAt t) (filter P (todos s))
       \<and> mset (getFilteredTodos s) = mset (filter P (todos s))
       \<and> sorted_wrt (\<lambda>a b. createdAt b \<le> createdAt a) (getFilteredTodos s))
   \<and> (\<forall>str sub :: string.
         str_includes str sub = (\<exists>pre post. str = pre @ sub @ post))"
  unfolding Let_def
  apply (rule conjI)
   apply (simp only: getFilteredTodos_as_filter [of s] mset_sort sort_key_newest_first simp_thms)
  apply (simp add: str_includes_iff)
  done

theorem getFilteredTodos_stages_witness:
  "getFilteredTodos state_work_urgent = [todo2]
   \<and> getFilteredTodos state12 = [todo2, todo1]
   \<and> getFilteredTodos state_ecole = [todo_ecole]
   \<and> toLowerCase (title todo_ecole) = CHR 0xE9 # ''cole''
   \<and> toLowerCase (CHR 0xE9 # ''COLE'') = CHR 0xE9 # ''cole''"
proof -
  have a: "getFilteredTodos state_work_urgent = [todo2]"
    using getFilteredTodos_stages [of state_work_urgent]
    by (simp add: Let_def state_work_urgent_def state12_def no_filter_def todo1_def
        todo2_def)
  have b: "getFilteredTodos state12 = [todo2, todo1]"
    using getFilteredTodos_stages [of state12]
    by (simp add: Let_def state12_def no_filter_def todo1_def todo2_def)
  have l: "toLowerCase (CHR 0xC9 # ''cole'') = CHR 0xE9 # ''cole''"
    "toLowerCase (CHR 0xE9 # ''COLE'') = CHR 0xE9 # ''cole''"
    "toLowerCase ''Pay rent'' = ''pay rent''"
    "toLowerCase ''home'' = ''home''"
    "toLowerCase ''Write Report'' = ''write report''"
    "toLowerCase ''quarterly'' = ''quarterly''"
    "toLowerCase ''work'' = ''work''"
    by code_simp+
  have c: "getFilteredTodos state_ecole = [todo_ecole]"
    using getFilteredTodos_stages [of state_ecole]
    by (simp add: Let_def state_ecole_def state12_def no_filter_def todo1_def todo2_def
        todo_ecole_def l)
  from a b c l show ?thesis by (simp add: todo_ecole_def todo1_def)
qed

text \<open>
  C2 as stated fails for a filter whose tag list is set but empty: read as stated, the
  tags stage is active and no todo has a tag in the empty set, so nothing may be
  returned; the code skips the stage and returns every todo.
\<close>

theorem getFilteredTodos_empty_tags_counterexample:
  "f_tags (filter_st state_empty_tags) = Some []
   \<and> \<not> list_ex (\<lambda>tag. tag \<in> set (tags todo1)) []
   \<and> todo1 \<in> set (getFilteredTodos state_empty_tags)"
  by (simp add: getFilteredTodos_def state_empty_tags_def state12_def no_filter_def
      todo1_def todo2_def)

section \<open>Properties of the adapter and the routes\<close>

subsection \<open>Helper facts\<close>

lemma keepTag_iff: "keepTag v = (is_string v \<and> trim (str_of v) \<noteq> [])"
  by (cases v) simp_all

lemma keepTag_fun: "keepTag = (\<lambda>v. is_string v \<and> trim (str_of v) \<noteq> [])"
  by (rule ext) (rule keepTag_iff)

lemma trim_Nil [simp]: "trim [] = []"
  by (simp add: trim_def)




lemma map_of_store_put_same: "map_of (store_put k v db) k = Some v"
  by (induction db) auto

lemma store_delete_absent: "k \<notin> set (map fst db) \<Longrightarrow> store_delete k db = db"
  by (induction db) (auto simp: store_delete_def)

lemma store_delete_twice: "store_delete k (store_delete k db) = store_delete k db"
  by (simp add: store_delete_def)

lemma revive_obj_of_todo: "revive e (obj_of_todo t) = obj_of_todo t"
  by (rule ext) (simp add: revive_def obj_of_todo_def get_prop_def split: option.splits)

lemmas eval_defs =
  env_ok_def get_prop_def trim_def is_ws_def str_key_def Let_def map_add_def
  db_addTodo_def db_updateTodo_def db_deleteTodo_def db_getAllTodos_def store_getAll_def
  store_delete_def revive_def obj_of_todo_def priority_str_def db12_def todo1_def todo2_def

subsection \<open>Creation\<close>







subsection \<open>Update of one todo\<close>


lemma PUT_success:
  assumes "PUT_todo e now i body db = (Response 200 u, db')"
  shows "\<exists>allTodos existingTodo updates. db_getAllTodos e db = Inr allTodos
     \<and> find (\<lambda>t. strict_eq (get_prop t ''id'') (JStr i)) allTodos = Some existingTodo
     \<and> prepareUpdates e body = Inr updates
     \<and> u = (existingTodo ++ updates)(''updatedAt'' \<mapsto> JDate (Some now))
     \<and> db_updateTodo e u db = Inr db'"
proof (cases "prepareUpdates e body")
  case (Inl err)
  with assms show ?thesis by (simp add: PUT_todo_def split: if_splits)
next
  case (Inr updates)
  note p = this
  show ?thesis
  proof (cases "db_getAllTodos e db")
    case (Inl err)
    with assms p show ?thesis by (simp add: PUT_todo_def split: if_splits)
  next
    case (Inr allTodos)
    note g = this
    show ?thesis
    proof (cases "find (\<lambda>t. strict_eq (get_prop t ''id'') (JStr i)) allTodos")
      case None
      with assms p g show ?thesis by (simp add: PUT_todo_def split: if_splits)
    next
      case (Some existingTodo)
      note f = this
      show ?thesis
      proof (cases "db_updateTodo e
               ((existingTodo ++ updates)(''updatedAt'' \<mapsto> JDate (Some now))) db")
        case (Inl err)
        with assms p g f show ?thesis by (simp add: PUT_todo_def Let_def split: if_splits)
      next
        case (Inr d)
        with assms p g f show ?thesis by (simp add: PUT_todo_def Let_def split: if_splits)
      qed
    qed
  qed
qed





lemma removeUndefined_Some: "m k = Some v \<Longrightarrow> v \<noteq> JUndefined \<Longrightarrow> removeUndefined m k = Some v"
  by (cases v) (simp_all add: removeUndefined_def)

lemma prepareUpdates_Inr:
  assumes "prepareUpdates e body = Inr updates"
  shows "\<exists>t d. optTrim (get_prop body ''title'') = Inr t
     \<and> optTrim (get_prop body ''description'') = Inr d
     \<and> updates = removeUndefined
         (body(''title'' \<mapsto> t,
               ''description'' \<mapsto> d,
               ''dueDate'' \<mapsto> (if truthy (get_prop body ''dueDate'')
                                then newDate e (get_prop body ''dueDate'')
                                else JUndefined),
               ''tags'' \<mapsto> (case get_prop body ''tags'' of
                               JArr xs \<Rightarrow> JArr (filter keepTag xs)
                             | _ \<Rightarrow> JUndefined)))"
proof (cases "optTrim (get_prop body ''title'')")
  case (Inl err)
  with assms show ?thesis by (simp add: prepareUpdates_def)
next
  case (Inr t)
  note t = this
  show ?thesis
  proof (cases "optTrim (get_prop body ''description'')")
    case (Inl err)
    with assms t show ?thesis by (simp add: prepareUpdates_def)
  next
    case (Inr d)
    with assms t show ?thesis by (simp add: prepareUpdates_def)
  qed
qed




lemma prepareUpdates_tags_array:
  assumes "prepareUpdates e body = Inr updates" and "get_prop body ''tags'' = JArr xs"
  shows "updates ''tags'' = Some (JArr (filter keepTag xs))"
proof -
  from prepareUpdates_Inr [OF assms(1)] obtain m where
    "updates = removeUndefined m" "m ''tags'' = Some (JArr (filter keepTag xs))"
    using assms(2) by auto
  then show ?thesis by (simp add: removeUndefined_Some)
qed








lemma POST_success_tags:
  assumes "POST_todos e newId now1 now2 body db = (Response 201 newTodo, db')"
  shows "get_prop newTodo ''tags''
     = JArr (case get_prop body ''tags'' of
               JArr xs \<Rightarrow> filter (\<lambda>v. is_string v \<and> trim (str_of v) \<noteq> []) xs
             | _ \<Rightarrow> [])"
proof -
  have c: "(case (case get_prop body ''tags'' of JUndefined \<Rightarrow> JArr [] | v \<Rightarrow> v) of
              JArr xs \<Rightarrow> JArr (filter keepTag xs) | _ \<Rightarrow> JArr [])
           = JArr (case get_prop body ''tags'' of
               JArr xs \<Rightarrow> filter (\<lambda>v. is_string v \<and> trim (str_of v) \<noteq> []) xs
             | _ \<Rightarrow> [])"
    by (cases "get_prop body ''tags''") (simp_all add: keepTag_fun)
  from assms show ?thesis
    unfolding POST_todos_def Let_def c
    by (auto simp: get_prop_def split: sum.splits if_splits)
qed

lemma kept_tags_are_strings:
  "v \<in> set (filter (\<lambda>v. is_string v \<and> trim (str_of v) \<noteq> []) xs) \<Longrightarrow>
   \<exists>s. v = JStr s \<and> s \<noteq> [] \<and> trim s \<noteq> []"
  by (cases v) auto

text \<open>
  C5 (amended). The tags that \<^verbatim>\<open>POST\<close> writes, and the tags that \<^verbatim>\<open>PUT\<close> writes when the
  body carries an array, are exactly the entries of the input array that are strings
  and non-blank after trimming, in the order of the input (so each is a non-empty
  string); \<^verbatim>\<open>POST\<close> writes \<open>[]\<close> for an input that is absent or not an array. The
  entries are stored as given: not trimmed, not lower-cased, not de-duplicated.
\<close>

theorem tags_written_are_nonblank_strings:
  "(POST_todos e newId now1 now2 body db = (Response 201 newTodo, db')
      \<longrightarrow> get_prop newTodo ''tags''
            = JArr (case get_prop body ''tags'' of
                      JArr ys \<Rightarrow> filter (\<lambda>v. is_string v \<and> trim (str_of v) \<noteq> []) ys
                    | _ \<Rightarrow> []))
   \<and> (PUT_todo e now i body2 db = (Response 200 u, db2) \<and> get_prop body2 ''tags'' = JArr xs
      \<longrightarrow> get_prop u ''tags'' = JArr (filter (\<lambda>v. is_string v \<and> trim (str_of v) \<noteq> []) xs))
   \<and> (\<forall>v \<in> set (filter (\<lambda>v. is_string v \<and> trim (str_of v) \<noteq> []) xs).
         \<exists>s. v = JStr s \<and> s \<noteq> [] \<and> trim s \<noteq> [])"
proof (intro conjI impI ballI)
  assume "POST_todos e newId now1 now2 body db = (Response 201 newTodo, db')"
  then show "get_prop newTodo ''tags''
            = JArr (case get_prop body ''tags'' of
                      JArr ys \<Rightarrow> filter (\<lambda>v. is_string v \<and> trim (str_of v) \<noteq> []) ys
                    | _ \<Rightarrow> [])"
    by (rule POST_success_tags)
next
  assume a: "PUT_todo e now i body2 db = (Response 200 u, db2)
             \<and> get_prop body2 ''tags'' = JArr xs"
  then obtain existingTodo updates where
    up: "prepareUpdates e body2 = Inr updates"
    and u: "u = (existingTodo ++ updates)(''updatedAt'' \<mapsto> JDate (Some now))"
    using PUT_success [of e now i body2 db u db2] by blast
  from up a have "updates ''tags'' = Some (JArr (filter keepTag xs))"
    using prepareUpdates_tags_array by blast
  with u show "get_prop u ''tags''
                 = JArr (filter (\<lambda>v. is_string v \<and> trim (str_of v) \<noteq> []) xs)"
    by (simp add: get_prop_def keepTag_fun)
next
  fix v
  assume "v \<in> set (filter (\<lambda>v. is_string v \<and> trim (str_of v) \<noteq> []) xs)"
  then show "\<exists>s. v = JStr s \<and> s \<noteq> [] \<and> trim s \<noteq> []"
    by (rule kept_tags_are_strings)
qed

theorem tags_written_are_nonblank_strings_witness:
  "(case POST_todos env_ok ''n1'' 5 5
          [''title'' \<mapsto> JStr ''X'', ''tags'' \<mapsto> JArr [JStr ''a b'', JNull, JStr '' '']] [] of
      (Response st t, d) \<Rightarrow> st = 201 \<and> get_prop t ''tags'' = JArr [JStr ''a b'']
    | (ErrorResponse st m, d) \<Rightarrow> False)
   \<and> (case PUT_todo env_ok 9000 ''1''
          [''tags'' \<mapsto> JArr [JStr '' Home '', JNum 3, JStr [], JStr ''home'']] db12 of
      (Response st u, d) \<Rightarrow>
        st = 200 \<and> get_prop u ''tags'' = JArr [JStr '' Home '', JStr ''home'']
    | (ErrorResponse st m, d) \<Rightarrow> False)"
proof -
  have a: "(case PUT_todo env_ok 9000 ''1''
          [''tags'' \<mapsto> JArr [JStr '' Home '', JNum 3, JStr [], JStr ''home'']] db12 of
      (Response st u, d) \<Rightarrow>
        st = 200 \<and> get_prop u ''tags'' = JArr [JStr '' Home '', JStr ''home'']
    | (ErrorResponse st m, d) \<Rightarrow> False)"
    using tags_written_are_nonblank_strings
      [where e = env_ok and now = 9000 and i = "''1''" and db = db12
         and ?body2.0 = "[''tags'' \<mapsto> JArr [JStr '' Home '', JNum 3, JStr [], JStr ''home'']]"
         and xs = "[JStr '' Home '', JNum 3, JStr [], JStr ''home'']"]
    by (simp add: PUT_todo_def POST_todos_def prepareUpdates_def removeUndefined_def eval_defs)
  have b: "(case POST_todos env_ok ''n1'' 5 5
          [''title'' \<mapsto> JStr ''X'', ''tags'' \<mapsto> JArr [JStr ''a b'', JNull, JStr '' '']] [] of
      (Response st t, d) \<Rightarrow> st = 201 \<and> get_prop t ''tags'' = JArr [JStr ''a b'']
    | (ErrorResponse st m, d) \<Rightarrow> False)"
    by (simp add: PUT_todo_def POST_todos_def prepareUpdates_def removeUndefined_def eval_defs)
  from a b show ?thesis by simp
qed

text \<open>
  C5 as stated fails: \<^verbatim>\<open>POST\<close> stores a tags array with a repeated entry that is not
  lower-case.
\<close>

theorem tags_not_deduplicated_counterexample:
  "(case POST_todos env_ok ''n1'' 5 5
          [''title'' \<mapsto> JStr ''X'', ''tags'' \<mapsto> JArr [JStr ''Work'', JStr ''Work'']] [] of
      (Response st t, d) \<Rightarrow>
        st = 201 \<and> get_prop t ''tags'' = JArr [JStr ''Work'', JStr ''Work'']
        \<and> map_of d (str_key ''n1'') = Some t
    | (ErrorResponse st m, d) \<Rightarrow> False)
   \<and> \<not> distinct [JStr ''Work'', JStr ''Work'']
   \<and> toLowerCase ''Work'' = ''work''"
proof -
  have "toLowerCase ''Work'' = ''work''"
    by code_simp
  then show ?thesis
    by (simp add: POST_todos_def eval_defs)
qed

subsection \<open>Every stored \<open>updatedAt\<close> is an earlier reading of the clock\<close>


















subsection \<open>The store's update over the route\<close>

lemma todo_of_obj_inverse: "todo_of_obj (obj_of_todo t) = t"
  by (simp add: todo_of_obj_def obj_of_todo_def get_prop_def priority_str_def comp_def
      split: option.splits priority.splits)











subsection \<open>The adapter's insert, upsert and delete\<close>

text \<open>
  C8. \<^verbatim>\<open>add\<close> fails whenever the store holds a record under the todo's id; \<^verbatim>\<open>update\<close>
  of a todo with a string id succeeds whether or not the store holds a record under
  that id, and afterwards the store holds the todo; \<^verbatim>\<open>delete\<close> of an absent id
  succeeds and leaves the store as it is, and a second \<^verbatim>\<open>delete\<close> of the same id
  succeeds and changes nothing. (Success is of a request that the environment does
  not fail.)
\<close>

theorem adapter_insert_upsert_delete:
  "(key_of (get_prop todo ''id'') = Some k \<and> k \<in> set (map fst db)
      \<longrightarrow> (\<exists>err. db_addTodo e todo db = Inl err))
   \<and> (get_prop todo ''id'' = JStr i \<and> \<not> fails e (ReqPut (JStr i))
      \<longrightarrow> (\<exists>db'. db_updateTodo e todo db = Inr db' \<and> map_of db' (str_key i) = Some todo))
   \<and> (\<not> fails e (ReqDelete (JStr i)) \<and> str_key i \<notin> set (map fst db)
      \<longrightarrow> db_deleteTodo e (JStr i) db = Inr db)
   \<and> (\<not> fails e (ReqDelete (JStr i))
      \<longrightarrow> (\<exists>db1. db_deleteTodo e (JStr i) db = Inr db1
                \<and> db_deleteTodo e (JStr i) db1 = Inr db1))"
  by (auto simp: db_addTodo_def db_updateTodo_def db_deleteTodo_def map_of_store_put_same
      store_delete_absent store_delete_twice)

theorem adapter_insert_upsert_delete_witness:
  "key_of (get_prop (obj_of_todo todo1) ''id'') = Some (str_key ''1'')
   \<and> str_key ''1'' \<in> set (map fst db12)
   \<and> db_addTodo env_ok (obj_of_todo todo1) db12 = Inl ConstraintError
   \<and> get_prop (obj_of_todo (todo1\<lparr>todo_id := ''0''\<rparr>)) ''id'' = JStr ''0''
   \<and> \<not> fails env_ok (ReqPut (JStr ''0''))
   \<and> str_key ''0'' \<notin> set (map fst db12)
   \<and> (case db_updateTodo env_ok (obj_of_todo (todo1\<lparr>todo_id := ''0''\<rparr>)) db12 of
        Inr d \<Rightarrow> map fst d = [str_key ''0'', str_key ''1'', str_key ''2'']
      | Inl err \<Rightarrow> False)
   \<and> \<not> fails env_ok (ReqDelete (JStr ''3''))
   \<and> str_key ''3'' \<notin> set (map fst db12)
   \<and> db_deleteTodo env_ok (JStr ''3'') db12 = Inr db12
   \<and> (case db_deleteTodo env_ok (JStr ''1'') db12 of
        Inr d \<Rightarrow> map fst d = [str_key ''2''] \<and> db_deleteTodo env_ok (JStr ''1'') d = Inr d
      | Inl err \<Rightarrow> False)"
  using adapter_insert_upsert_delete
    [where e = env_ok and db = db12 and i = "''3''" and todo = "obj_of_todo todo1"
       and k = "str_key ''1''"]
    adapter_insert_upsert_delete
    [where e = env_ok and db = db12 and i = "''0''"
       and todo = "obj_of_todo (todo1\<lparr>todo_id := ''0''\<rparr>)" and k = "str_key ''0''"]
    adapter_insert_upsert_delete
    [where e = env_ok and db = db12 and i = "''1''" and todo = "obj_of_todo todo1"
       and k = "str_key ''1''"]
  by (simp add: eval_defs)

subsection \<open>Bulk delete\<close>





lemma key_of_array: "(key_of (JArr vs) \<noteq> None) = (\<forall>v \<in> set vs. key_of v \<noteq> None)"
proof -
  have "(those xs \<noteq> None) = (\<forall>x \<in> set xs. x \<noteq> None)" for xs :: "idbkey option list"
    by (induction xs) (auto split: option.splits)
  from this [of "map key_of vs"] show ?thesis by simp
qed




subsection \<open>The adapter's filtered read against the store's filtered view\<close>

lemma priority_str_inject: "(priority_str p = priority_str q) = (p = q)"
  by (cases p; cases q) (simp_all add: priority_str_def)

lemma priority_str_nonempty: "priority_str p \<noteq> []"
  by (cases p) (simp_all add: priority_str_def)

lemma obj_priority_key:
  "(key_of (get_prop (obj_of_todo t) ''priority'') = Some (str_key (priority_str q)))
   = (priority t = q)"
  by (simp add: obj_of_todo_def get_prop_def str_key_def priority_str_inject)

lemma obj_completed_eq:
  "strict_eq (get_prop (obj_of_todo t) ''completed'') (JBool c) = (completed t = c)"
  by (simp add: obj_of_todo_def get_prop_def)

lemma adapter_filter_typed:
  assumes "map snd db = map obj_of_todo ts"
    and "\<not> fails e ReqGetAll" and "\<not> fails e ReqIndexGetAll"
  shows "db_getTodosByFilter e \<lparr>af_completed = c, af_priority = map_option priority_str p\<rparr> db
     = Inr (map obj_of_todo
         (filter (\<lambda>t. (\<forall>b. c = Some b \<longrightarrow> completed t = b)
                    \<and> (\<forall>q. p = Some q \<longrightarrow> priority t = q)) ts))"
proof -
  have r: "map (revive e) (map obj_of_todo xs) = map obj_of_todo xs" for xs
    by (simp add: revive_obj_of_todo)
  have i: "index_getAll ''priority'' (str_key (priority_str q)) db
             = map obj_of_todo (filter (\<lambda>t. priority t = q) ts)" for q
    by (simp add: index_getAll_def assms(1) filter_map comp_def obj_priority_key)
  have f: "filter (\<lambda>todo. strict_eq (get_prop todo ''completed'') (JBool b)) (map obj_of_todo xs)
             = map obj_of_todo (filter (\<lambda>t. completed t = b) xs)" for b xs
    by (simp add: filter_map comp_def obj_completed_eq)
  show ?thesis
  proof (cases p)
    case None
    then show ?thesis
      using assms(2)
      by (cases c)
         (simp_all add: db_getTodosByFilter_def store_getAll_def assms(1) r f
            del: map_map)
  next
    case (Some q)
    then show ?thesis
      using assms(3)
      by (cases c)
         (simp_all add: db_getTodosByFilter_def priority_str_nonempty i r f conj_commute
            del: map_map)
  qed
qed

lemma generic_filter_typed:
  "getFilteredTodos
     (s\<lparr>todos := ts,
        filter_st := \<lparr>f_status = map_option (\<lambda>b. if b then StatusCompleted else StatusActive) c,
                      f_priority = p, f_tags = None, f_search = None\<rparr>\<rparr>)
   = sort_key (\<lambda>t. - createdAt t)
       (filter (\<lambda>t. (\<forall>b. c = Some b \<longrightarrow> completed t = b)
                  \<and> (\<forall>q. p = Some q \<longrightarrow> priority t = q)) ts)"
  unfolding getFilteredTodos_as_filter
  by (cases c) (auto intro!: arg_cong [where f = "sort_key (\<lambda>t. - createdAt t)"] filter_cong)

text \<open>
  C6 (amended). For a store that holds typed todos \<open>ts\<close> (in key order, as \<^verbatim>\<open>getAll\<close>
  returns them) and every filter \<^verbatim>\<open>{completed?, priority?}\<close>, the adapter's
  \<^verbatim>\<open>getTodosByFilter\<close> returns the same todos, each as often, as the store's generic
  filter applied to \<open>ts\<close> with the same two constraints; the adapter returns them in
  key order and the generic filter newest first, so the generic result is the adapter's
  result sorted (stably) by descending \<open>createdAt\<close>.
\<close>

theorem db_getTodosByFilter_same_todos:
  "map snd db = map obj_of_todo ts \<and> \<not> fails e ReqGetAll \<and> \<not> fails e ReqIndexGetAll
   \<longrightarrow>
   (let P = (\<lambda>t. (\<forall>b. c = Some b \<longrightarrow> completed t = b)
                \<and> (\<forall>q. p = Some q \<longrightarrow> priority t = q));
        generic = getFilteredTodos
          (s\<lparr>todos := ts,
             filter_st :=
               \<lparr>f_status = map_option (\<lambda>b. if b then StatusCompleted else StatusActive) c,
                f_priority = p, f_tags = None, f_search = None\<rparr>\<rparr>)
    in db_getTodosByFilter e \<lparr>af_completed = c, af_priority = map_option priority_str p\<rparr> db
         = Inr (map obj_of_todo (filter P ts))
       \<and> generic = sort_key (\<lambda>t. - createdAt t) (filter P ts)
       \<and> mset generic = mset (filter P ts))"
proof
  assume a: "map snd db = map obj_of_todo ts \<and> \<not> fails e ReqGetAll \<and> \<not> fails e ReqIndexGetAll"
  then show "(let P = (\<lambda>t. (\<forall>b. c = Some b \<longrightarrow> completed t = b)
                \<and> (\<forall>q. p = Some q \<longrightarrow> priority t = q));
        generic = getFilteredTodos
          (s\<lparr>todos := ts,
             filter_st :=
               \<lparr>f_status = map_option (\<lambda>b. if b then StatusCompleted else StatusActive) c,
                f_priority = p, f_tags = None, f_search = None\<rparr>\<rparr>)
    in db_getTodosByFilter e \<lparr>af_completed = c, af_priority = map_option priority_str p\<rparr> db
         = Inr (map obj_of_todo (filter P ts))
       \<and> generic = sort_key (\<lambda>t. - createdAt t) (filter P ts)
       \<and> mset generic = mset (filter P ts))"
    unfolding Let_def
    by (simp only: adapter_filter_typed generic_filter_typed
        mset_sort simp_thms)
qed

theorem db_getTodosByFilter_same_todos_witness:
  "(case db_getTodosByFilter env_ok \<lparr>af_completed = Some True, af_priority = Some ''high''\<rparr>
          db12 of
      Inr rs \<Rightarrow> map (\<lambda>t. get_prop t ''id'') rs = [JStr ''2'']
    | Inl err \<Rightarrow> False)
   \<and> getFilteredTodos
        (state12\<lparr>filter_st := \<lparr>f_status = Some StatusCompleted, f_priority = Some High,
                                f_tags = None, f_search = None\<rparr>\<rparr>) = [todo2]"
  using db_getTodosByFilter_same_todos
    [where e = env_ok and db = db12 and ts = "[todo1, todo2]" and c = "Some True"
       and p = "Some High" and s = state12]
  by (simp add: db_getTodosByFilter_def index_getAll_def getFilteredTodos_def state12_def
      no_filter_def eval_defs)

text \<open>
  C6 as stated fails on the order: for the store of the two example todos and the
  empty filter the adapter returns them in key order, the generic filter newest first.
\<close>

theorem db_getTodosByFilter_order_counterexample:
  "map snd db12 = map obj_of_todo (todos state12)
   \<and> (case db_getTodosByFilter env_ok \<lparr>af_completed = None, af_priority = None\<rparr> db12 of
        Inr rs \<Rightarrow> map (\<lambda>t. get_prop t ''id'') rs = [JStr ''1'', JStr ''2'']
      | Inl err \<Rightarrow> False)
   \<and> map todo_id (getFilteredTodos state12) = [''2'', ''1'']"
  by (simp add: db_getTodosByFilter_def getFilteredTodos_def state12_def no_filter_def
      eval_defs)

subsection \<open>The in-memory list against the durable store\<close>

text \<open>
  What holds of C3: no mutator changes the in-memory list when its API call fails;
  the list is rewritten only in the branch that follows a successful call.
\<close>

lemma mutators_keep_list_on_failure:
  "todos (addTodo None s) = todos s
   \<and> todos (updateTodo i None s) = todos s
   \<and> todos (deleteTodo i False s) = todos s
   \<and> todos (deleteTodos ids False s) = todos s
   \<and> todos (toggleTodo i None s) = todos s
   \<and> todos (toggleTodos ids False now s) = todos s"
  by (simp add: addTodo_def updateTodo_def deleteTodo_def deleteTodos_def toggleTodo_def
      toggleTodos_def Let_def split: option.splits)

text \<open>
  C3 fails on the code. The store and the in-memory list both hold the todos \<open>1\<close> and
  \<open>2\<close>; \<^verbatim>\<open>deleteTodos(['1', '2'])\<close> is called and the adapter's delete of \<open>2\<close> fails. The
  route skips the failed id and still answers 200, with \<^verbatim>\<open>deleted: ['1']\<close>; the store's
  \<^verbatim>\<open>api.bulkDelete\<close> looks at \<^verbatim>\<open>response.ok\<close> only, and \<^verbatim>\<open>deleteTodos\<close> removes every id
  of its argument from the list. After this successful mutator the list is empty and
  the durable store still holds todo \<open>2\<close>.
\<close>

theorem deleteTodos_partial_failure_diverges:
  "map snd db12 = map obj_of_todo (todos state12)
   \<and> (case DELETE_todos env_fail2 (JArr (map JStr [''1'', ''2''])) db12 of
        (resp, db') \<Rightarrow>
          resp = Response 200 ([JStr ''1''], 1)
          \<and> response_ok resp
          \<and> todos (deleteTodos [''1'', ''2''] (response_ok resp) state12) = []
          \<and> map snd db' = [obj_of_todo todo2])"
  by (simp add: DELETE_todos_def deleteTodos_def state12_def db12_def env_fail2_def
      db_deleteTodo_def store_delete_def str_key_def Let_def todo1_def todo2_def)

text \<open>
  The same divergence in the bulk toggle: the route stamps the durable record with the
  server's clock, \<^verbatim>\<open>toggleTodos\<close> drops the records the route returns and stamps the
  in-memory todo with a clock reading of its own.
\<close>

lemma toggleTodos_timestamp_diverges:
  "(case PUT_todos env_ok (\<lambda>n. 5000) (JArr [JStr ''1'']) [''completed'' \<mapsto> JBool True] db12 of
      (resp, db') \<Rightarrow>
        response_ok resp
        \<and> map (\<lambda>t. get_prop t ''updatedAt'') (map snd db') = [JDate (Some 5000), JDate (Some 2000)]
        \<and> map (\<lambda>t. get_prop t ''completed'') (map snd db') = [JBool True, JBool True]
        \<and> map updatedAt (todos (toggleTodos [''1''] (response_ok resp) 5001 state12))
            = [5001, 2000]
        \<and> map completed (todos (toggleTodos [''1''] (response_ok resp) 5001 state12))
            = [True, True])"
  by (simp add: PUT_todos_def toggleTodos_def state12_def eval_defs)

end
